theory Spec2Isabelle
  imports Main "HOL-Library.Log_Nat" "HOL-Library.Sublist"
begin

section \<open>Configuration constants\<close>

text \<open>
  A Python string is held as its UTF-8 encoding, so a character outside ASCII is written
  byte by byte; a string with a lone surrogate has no such encoding and is outside the
  model. The program compares strings for equality, tests them for emptiness and
  concatenates them, which agree on characters and on UTF-8 bytes; a release date, whose
  characters are read, is decoded first.
\<close>

definition SPOTIFY_TOKEN_URL :: string where
  "SPOTIFY_TOKEN_URL = ''https://accounts.spotify.com/api/token''"

definition SPOTIFY_API :: string where
  "SPOTIFY_API = ''https://api.spotify.com/v1''"

definition PLAYLIST_NAME :: string where
  "PLAYLIST_NAME = ''Not'' @ [CHR 0xC3, CHR 0xAD] @ ''cias do Dia (Auto)''"

definition PLAYLIST_DESCRIPTION :: string where
  "PLAYLIST_DESCRIPTION =
     ''Atualizada automaticamente com not'' @ [CHR 0xC3, CHR 0xAD]
       @ ''cias gerais e de esportes (futebol) das '' @ [CHR 0xC3, CHR 0xBA]
       @ ''ltimas 24'' @ [CHR 0xE2, CHR 0x80, CHR 0x93] @ ''36h.''"

definition NEWS_SHOW_QUERIES :: "string list" where
  "NEWS_SHOW_QUERIES =
     [ ''the news '' @ [CHR 0xE2, CHR 0x98, CHR 0x95, CHR 0xEF, CHR 0xB8, CHR 0x8F],
       ''Resum'' @ [CHR 0xC3, CHR 0xA3] @ ''o Di'' @ [CHR 0xC3, CHR 0xA1] @ ''rio'',
       ''Caf'' @ [CHR 0xC3, CHR 0xA9] @ '' da Manh'' @ [CHR 0xC3, CHR 0xA3],
       ''Ao Ponto'' ]"

definition SPORTS_SHOW_QUERIES :: "string list" where
  "SPORTS_SHOW_QUERIES = [ ''Resumo do dIA ge'', ''CBN Esportes'' ]"

definition FRESH_HOURS :: int where
  "FRESH_HOURS = 36"

definition MARKET :: string where
  "MARKET = ''BR''"


section \<open>Errors\<close>

text \<open>
  Every way a call of the program can raise. \<open>RequestError\<close> stands for whatever the
  HTTP library raises on a request (a failure status through \<open>raise_for_status\<close>, a
  timeout, a connection failure, a body that is not JSON).
\<close>

datatype failure = HTTPStatus nat | Timeout | ConnectionFailed | BadBody

datatype error =
    RuntimeError string
  | KeyError string
  | RequestError failure


section \<open>Calendar arithmetic of the datetime library\<close>

text \<open>
  \<open>datetime.datetime\<close> values in UTC. The functions below are the library's own
  proleptic Gregorian arithmetic (\<open>_is_leap\<close>, \<open>_days_before_year\<close>,
  \<open>_days_in_month\<close>, \<open>_days_before_month\<close>, \<open>_ymd2ord\<close>).
\<close>

record datetime =
  year :: int
  month :: int
  day :: int
  hour :: int
  minute :: int
  second :: int
  microsecond :: int

definition is_leap :: "int \<Rightarrow> bool" where
  "is_leap y = (y mod 4 = 0 \<and> (y mod 100 \<noteq> 0 \<or> y mod 400 = 0))"

definition DAYS_IN_MONTH :: "int list" where
  "DAYS_IN_MONTH = [31, 28, 31, 30, 31, 30, 31, 31, 30, 31, 30, 31]"

definition days_in_month :: "int \<Rightarrow> int \<Rightarrow> int" where
  "days_in_month y m =
     (if m = 2 \<and> is_leap y then 29 else DAYS_IN_MONTH ! nat (m - 1))"

definition days_before_year :: "int \<Rightarrow> int" where
  "days_before_year y =
     (y - 1) * 365 + (y - 1) div 4 - (y - 1) div 100 + (y - 1) div 400"

definition days_before_month :: "int \<Rightarrow> int \<Rightarrow> int" where
  "days_before_month y m =
     sum_list (take (nat (m - 1)) DAYS_IN_MONTH) + (if 2 < m \<and> is_leap y then 1 else 0)"

definition ymd2ord :: "int \<Rightarrow> int \<Rightarrow> int \<Rightarrow> int" where
  "ymd2ord y m d = days_before_year y + days_before_month y m + d"

text \<open>The invariant of the library's datetime type (\<open>MINYEAR = 1\<close>, \<open>MAXYEAR = 9999\<close>).\<close>

definition valid_datetime :: "datetime \<Rightarrow> bool" where
  "valid_datetime t =
     (1 \<le> year t \<and> year t \<le> 9999 \<and> 1 \<le> month t \<and> month t \<le> 12
      \<and> 1 \<le> day t \<and> day t \<le> days_in_month (year t) (month t)
      \<and> 0 \<le> hour t \<and> hour t < 24 \<and> 0 \<le> minute t \<and> minute t < 60
      \<and> 0 \<le> second t \<and> second t < 60
      \<and> 0 \<le> microsecond t \<and> microsecond t < 1000000)"

text \<open>Microseconds since the start of day 0 of the ordinal calendar.\<close>

definition to_micros :: "datetime \<Rightarrow> int" where
  "to_micros t =
     (((ymd2ord (year t) (month t) (day t) * 24 + hour t) * 60 + minute t) * 60
        + second t) * 1000000 + microsecond t"

text \<open>
  \<open>now - release_dt\<close> for two aware datetimes of the same zone: a timedelta, held as
  its exact number of microseconds.
\<close>

definition timedelta_micros :: "datetime \<Rightarrow> datetime \<Rightarrow> int" where
  "timedelta_micros a b = to_micros a - to_micros b"


section \<open>Parsing a release date: \<open>strptime(s, "%Y-%m-%d")\<close>\<close>

text \<open>
  The characters of a string: the code points its UTF-8 bytes encode, \<open>None\<close> for
  bytes that are not the UTF-8 encoding of a sequence of Unicode scalar values.
\<close>

definition continuation :: "char \<Rightarrow> bool" where
  "continuation c = (128 \<le> (of_char c :: int) \<and> (of_char c :: int) < 192)"

definition low6 :: "char \<Rightarrow> int" where
  "low6 c = of_char c - 128"

definition scalar :: "int \<Rightarrow> int \<Rightarrow> bool" where
  "scalar least cp = (least \<le> cp \<and> cp \<le> 1114111 \<and> \<not> (55296 \<le> cp \<and> cp \<le> 57343))"

fun next_codepoint :: "string \<Rightarrow> (int \<times> string) option" where
  "next_codepoint [] = None"
| "next_codepoint (b # bs) =
     (let n = (of_char b :: int) in
      if n < 128 then Some (n, bs)
      else if 192 \<le> n \<and> n < 224 then
        (case bs of
           c1 # rest \<Rightarrow>
             (let cp = (n - 192) * 64 + low6 c1
              in if continuation c1 \<and> scalar 128 cp then Some (cp, rest) else None)
         | _ \<Rightarrow> None)
      else if 224 \<le> n \<and> n < 240 then
        (case bs of
           c1 # c2 # rest \<Rightarrow>
             (let cp = ((n - 224) * 64 + low6 c1) * 64 + low6 c2
              in if continuation c1 \<and> continuation c2 \<and> scalar 2048 cp
                 then Some (cp, rest) else None)
         | _ \<Rightarrow> None)
      else if 240 \<le> n \<and> n < 248 then
        (case bs of
           c1 # c2 # c3 # rest \<Rightarrow>
             (let cp = (((n - 240) * 64 + low6 c1) * 64 + low6 c2) * 64 + low6 c3
              in if continuation c1 \<and> continuation c2 \<and> continuation c3 \<and> scalar 65536 cp
                 then Some (cp, rest) else None)
         | _ \<Rightarrow> None)
      else None)"

function utf8_decode :: "string \<Rightarrow> int list option" where
  "utf8_decode [] = Some []"
| "utf8_decode (b # bs) =
     (case next_codepoint (b # bs) of
        None \<Rightarrow> None
      | Some (cp, rest) \<Rightarrow> map_option ((#) cp) (utf8_decode rest))"
  by pat_completeness auto
termination
  by (relation "measure length")
     (auto simp: Let_def split: if_splits list.splits)

text \<open>
  The library turns the format into the regular expression
  \<^verbatim>\<open>(?P<Y>\d\d\d\d)-(?P<m>1[0-2]|0[1-9]|[1-9])-(?P<d>3[0-1]|[1-2]\d|0[1-9]|[1-9]| [1-9])\<close>,
  matches it at the start of the string, refuses a string with characters left over, and
  builds the date, which refuses year 0 and a day the month does not have. Each refusal
  is a \<open>ValueError\<close>, here \<open>None\<close>.

  On a string, \<open>\d\<close> matches every Unicode decimal digit (general category Nd) and
  \<open>int\<close> reads each by its decimal value, while a class such as \<open>[1-9]\<close> holds the
  ASCII digits only. The decimal digits come in runs of ten consecutive code points with
  the values 0 to 9; \<open>DECIMAL_ZEROS\<close> lists the first code point of each run in
  Unicode 14.0, the character database of Python 3.11.
\<close>

definition DECIMAL_ZEROS :: "int list" where
  "DECIMAL_ZEROS =
     [0x30, 0x660, 0x6F0, 0x7C0, 0x966, 0x9E6, 0xA66, 0xAE6, 0xB66, 0xBE6, 0xC66, 0xCE6,
      0xD66, 0xDE6, 0xE50, 0xED0, 0xF20, 0x1040, 0x1090, 0x17E0, 0x1810, 0x1946, 0x19D0,
      0x1A80, 0x1A90, 0x1B50, 0x1BB0, 0x1C40, 0x1C50, 0xA620, 0xA8D0, 0xA900, 0xA9D0,
      0xA9F0, 0xAA50, 0xABF0, 0xFF10, 0x104A0, 0x10D30, 0x11066, 0x110F0, 0x11136,
      0x111D0, 0x112F0, 0x11450, 0x114D0, 0x11650, 0x116C0, 0x11730, 0x118E0, 0x11950,
      0x11C50, 0x11D50, 0x11DA0, 0x16A60, 0x16AC0, 0x16B50, 0x1D7CE, 0x1D7D8, 0x1D7E2,
      0x1D7EC, 0x1D7F6, 0x1E140, 0x1E2F0, 0x1E950, 0x1FBF0]"

definition decimal :: "int \<Rightarrow> int option" where
  "decimal c =
     (case find (\<lambda>z. z \<le> c \<and> c < z + 10) DECIMAL_ZEROS of
        None \<Rightarrow> None
      | Some z \<Rightarrow> Some (c - z))"

definition in_range :: "char \<Rightarrow> char \<Rightarrow> int \<Rightarrow> bool" where
  "in_range lo hi c = (of_char lo \<le> c \<and> c \<le> of_char hi)"

definition is_char :: "char \<Rightarrow> int \<Rightarrow> bool" where
  "is_char x c = (c = of_char x)"

definition digit_val :: "int \<Rightarrow> int" where
  "digit_val c = c - 48"

fun match_year :: "int list \<Rightarrow> (int \<times> int list) option" where
  "match_year (a # b # c # d # rest) =
     (case (decimal a, decimal b, decimal c, decimal d) of
        (Some x3, Some x2, Some x1, Some x0) \<Rightarrow>
          Some (x3 * 1000 + x2 * 100 + x1 * 10 + x0, rest)
      | _ \<Rightarrow> None)"
| "match_year _ = None"

text \<open>
  The alternatives of a group are tried in the order written. When \<open>1[0-2]\<close> or
  \<open>0[1-9]\<close> has matched and the rest of the pattern then fails, the only later
  alternative \<open>[1-9]\<close> cannot succeed either (it would need \<open>-\<close> where a digit
  stands), so taking the first alternative that matches is the whole search.
\<close>

fun match_month :: "int list \<Rightarrow> (int \<times> int list) option" where
  "match_month (a # b # rest) =
     (if is_char CHR ''1'' a \<and> in_range CHR ''0'' CHR ''2'' b then Some (10 + digit_val b, rest)
      else if is_char CHR ''0'' a \<and> in_range CHR ''1'' CHR ''9'' b then Some (digit_val b, rest)
      else if in_range CHR ''1'' CHR ''9'' a then Some (digit_val a, b # rest)
      else None)"
| "match_month [a] = (if in_range CHR ''1'' CHR ''9'' a then Some (digit_val a, []) else None)"
| "match_month [] = None"

fun match_day :: "int list \<Rightarrow> (int \<times> int list) option" where
  "match_day (a # b # rest) =
     (if is_char CHR ''3'' a \<and> in_range CHR ''0'' CHR ''1'' b then Some (30 + digit_val b, rest)
      else if in_range CHR ''1'' CHR ''2'' a \<and> decimal b \<noteq> None
        then Some (digit_val a * 10 + the (decimal b), rest)
      else if is_char CHR ''0'' a \<and> in_range CHR ''1'' CHR ''9'' b then Some (digit_val b, rest)
      else if in_range CHR ''1'' CHR ''9'' a then Some (digit_val a, b # rest)
      else if is_char CHR '' '' a \<and> in_range CHR ''1'' CHR ''9'' b then Some (digit_val b, rest)
      else None)"
| "match_day [a] = (if in_range CHR ''1'' CHR ''9'' a then Some (digit_val a, []) else None)"
| "match_day [] = None"

definition strptime_ymd :: "int list \<Rightarrow> datetime option" where
  "strptime_ymd s =
     (case match_year s of
        Some (y, c1 # r1) \<Rightarrow>
          (if \<not> is_char CHR ''-'' c1 then None
           else case match_month r1 of
             Some (m, c2 # r2) \<Rightarrow>
               (if \<not> is_char CHR ''-'' c2 then None
                else case match_day r2 of
                  Some (d, []) \<Rightarrow>
                    (if 1 \<le> y \<and> d \<le> days_in_month y m
                     then Some \<lparr>year = y, month = m, day = d, hour = 0, minute = 0,
                                second = 0, microsecond = 0\<rparr>
                     else None)
                | _ \<Rightarrow> None)
           | _ \<Rightarrow> None)
      | _ \<Rightarrow> None)"

text \<open>
  \<open>strptime(release_date, "%Y-%m-%d").replace(tzinfo=utc, hour=12)\<close>: the release
  instant is taken to be noon UTC of the release day.
\<close>

definition parse_release :: "string \<Rightarrow> datetime option" where
  "parse_release s =
     (case utf8_decode s of
        None \<Rightarrow> None
      | Some cps \<Rightarrow> map_option (\<lambda>t. t\<lparr>hour := 12\<rparr>) (strptime_ymd cps))"


section \<open>Floating point: the elapsed hours\<close>

text \<open>
  \<open>total_seconds()\<close> divides the integer microseconds by \<open>10**6\<close>, and the result is
  divided by 3600; both quotients are binary64 values, each the exact quotient rounded
  to nearest, ties to even. \<open>to_double\<close> is that rounding on the rationals (53
  significant bits, the exponent not below the subnormal range). The elapsed time
  between two datetimes is below \<open>3.2 * 10^17\<close> microseconds, so no quotient here
  comes near the largest binary64 value and overflow has no case.
\<close>

definition pow2 :: "int \<Rightarrow> rat" where
  "pow2 k = (if 0 \<le> k then 2 ^ nat k else 1 / 2 ^ nat (- k))"

text \<open>For \<open>q > 0\<close>, the \<open>e\<close> with \<open>2^e \<le> q < 2^(e+1)\<close>.\<close>

definition binary_exponent :: "rat \<Rightarrow> int" where
  "binary_exponent q =
     (let (a, b) = quotient_of q; k = bitlen a - bitlen b
      in if pow2 k \<le> q then k else k - 1)"

definition round_half_even :: "rat \<Rightarrow> int" where
  "round_half_even m =
     (let f = \<lfloor>m\<rfloor>; d = m - of_int f
      in if d < 1 / 2 then f else if 1 / 2 < d then f + 1
         else if even f then f else f + 1)"

definition round_pos :: "rat \<Rightarrow> rat" where
  "round_pos q =
     (let e = max (binary_exponent q) (- 1022); ulp = pow2 (e - 52)
      in of_int (round_half_even (q / ulp)) * ulp)"

definition to_double :: "rat \<Rightarrow> rat" where
  "to_double q = (if q = 0 then 0 else if 0 < q then round_pos q else - round_pos (- q))"

text \<open>\<open>(now - release_dt).total_seconds() / 3600\<close>\<close>

definition total_seconds :: "int \<Rightarrow> rat" where
  "total_seconds us = to_double (of_int us / 1000000)"

definition hours_since :: "datetime \<Rightarrow> datetime \<Rightarrow> rat" where
  "hours_since now release_dt =
     to_double (total_seconds (timedelta_micros now release_dt) / 3600)"

text \<open>
  \<open>hours_since <= fresh_hours\<close>: Python compares a float with an int by their exact
  values.
\<close>

definition within_window :: "datetime \<Rightarrow> datetime \<Rightarrow> int \<Rightarrow> bool" where
  "within_window now release_dt fresh_hours =
     (hours_since now release_dt \<le> of_int fresh_hours)"


section \<open>Requests, responses and the process state\<close>

text \<open>
  What the program sends. The \<open>Basic\<close> header is held by the credentials string
  \<open>client_id:client_secret\<close> it encodes in base64.
\<close>

datatype http_method = GET | POST | PUT

datatype auth = Basic string | Bearer string

datatype param = PStr string | PInt int

datatype json = JStr string | JBool bool | JList "json list" | JObj "(string \<times> json) list"

datatype payload = Form "(string \<times> string) list" | Query "(string \<times> param) list" | Json json

datatype request =
  Request (meth: http_method) (url: string) (authorization: auth) (content: payload)

text \<open>
  What the program reads of a response body, an object whose values have the types the
  service documents: strings, and lists of objects.

  A key read with \<open>d[key]\<close> is a \<open>jstr\<close>: the object has no such key, or holds
  \<open>null\<close> under it, or holds a string. A key read with \<open>d.get(key)\<close> is an option:
  \<open>None\<close> when the key is absent or holds \<open>null\<close>, which \<open>get\<close> does not tell
  apart. A list read with \<open>d.get(key, [])\<close> is the list, empty when the key is absent.
\<close>

datatype jstr = Missing | Null | Str string

datatype playlist = Playlist (pl_name: "string option") (pl_id: jstr)

datatype page = Page (page_items: "playlist list") (page_next: "string option")

datatype podcast = Podcast (podcast_id: jstr)

datatype episode = Episode (ep_release_date: "string option") (ep_uri: jstr)

text \<open>
  The remote service and the clock, over a state \<open>'w\<close> of their own that every call
  may change. Each service answers a request with a body or a failure. The token
  service's body is the value under \<open>access_token\<close>, the creation service's the value
  under \<open>id\<close>, the search service's the list under \<open>shows.items\<close>, the episode
  service's the list under \<open>items\<close>.
\<close>

record 'w remote =
  token_service :: "request \<Rightarrow> 'w \<Rightarrow> (failure + jstr) \<times> 'w"
  playlists_service :: "request \<Rightarrow> 'w \<Rightarrow> (failure + page) \<times> 'w"
  create_service :: "request \<Rightarrow> 'w \<Rightarrow> (failure + jstr) \<times> 'w"
  search_service :: "request \<Rightarrow> 'w \<Rightarrow> (failure + podcast list) \<times> 'w"
  episodes_service :: "request \<Rightarrow> 'w \<Rightarrow> (failure + episode list) \<times> 'w"
  replace_service :: "request \<Rightarrow> 'w \<Rightarrow> (failure + unit) \<times> 'w"
  clock :: "'w \<Rightarrow> datetime \<times> 'w"
  pause :: "'w \<Rightarrow> 'w"

text \<open>
  The state of a run: the world, the requests sent so far (oldest first) and the lines
  printed so far.
\<close>

record 'w state =
  world :: 'w
  calls :: "request list"
  stdout :: "string list"

text \<open>
  A computation returns a value or raises, and leaves a state; \<open>None\<close> is a
  computation that does not return.
\<close>

type_synonym ('a, 'w) io = "'w state \<Rightarrow> ((error + 'a) \<times> 'w state) option"

definition ret :: "'a \<Rightarrow> ('a, 'w) io" where
  "ret x = (\<lambda>s. Some (Inr x, s))"

definition raise :: "error \<Rightarrow> ('a, 'w) io" where
  "raise e = (\<lambda>s. Some (Inl e, s))"

definition bind :: "('a, 'w) io \<Rightarrow> ('a \<Rightarrow> ('b, 'w) io) \<Rightarrow> ('b, 'w) io" where
  "bind m f =
     (\<lambda>s. case m s of
        None \<Rightarrow> None
      | Some (Inl e, s') \<Rightarrow> Some (Inl e, s')
      | Some (Inr x, s') \<Rightarrow> f x s')"

definition lift :: "error + 'a \<Rightarrow> ('a, 'w) io" where
  "lift r = (\<lambda>s. Some (r, s))"

text \<open>
  \<open>d[key]\<close> on a response body: \<open>KeyError\<close> when the key is absent, and otherwise
  the value, which is \<open>None\<close> for \<open>null\<close>.
\<close>

definition lookup :: "string \<Rightarrow> jstr \<Rightarrow> error + string option" where
  "lookup key v =
     (case v of Missing \<Rightarrow> Inl (KeyError key) | Null \<Rightarrow> Inr None | Str x \<Rightarrow> Inr (Some x))"

definition subscript :: "string \<Rightarrow> jstr \<Rightarrow> (string option, 'w) io" where
  "subscript key v = lift (lookup key v)"

text \<open>What an f-string writes for a value that is a string or \<open>None\<close>.\<close>

definition interpolate :: "string option \<Rightarrow> string" where
  "interpolate v = (case v of None \<Rightarrow> ''None'' | Some x \<Rightarrow> x)"

text \<open>Truth value of an optional string: \<open>None\<close> and the empty string are false.\<close>

definition truthy :: "string option \<Rightarrow> bool" where
  "truthy v = (case v of None \<Rightarrow> False | Some x \<Rightarrow> x \<noteq> [])"

text \<open>Sending a request: it is recorded, and the service's answer and new state taken.\<close>

definition send :: "(request \<Rightarrow> 'w \<Rightarrow> (failure + 'a) \<times> 'w) \<Rightarrow> request \<Rightarrow> ('a, 'w) io" where
  "send service req =
     (\<lambda>s. case service req (world s) of
        (Inl f, w') \<Rightarrow> Some (Inl (RequestError f), s\<lparr>world := w', calls := calls s @ [req]\<rparr>)
      | (Inr body, w') \<Rightarrow> Some (Inr body, s\<lparr>world := w', calls := calls s @ [req]\<rparr>))"

definition utcnow :: "'w remote \<Rightarrow> (datetime, 'w) io" where
  "utcnow rem = (\<lambda>s. case clock rem (world s) of (t, w') \<Rightarrow> Some (Inr t, s\<lparr>world := w'\<rparr>))"

definition sleep :: "'w remote \<Rightarrow> (unit, 'w) io" where
  "sleep rem = (\<lambda>s. Some (Inr (), s\<lparr>world := pause rem (world s)\<rparr>))"

definition print :: "string \<Rightarrow> (unit, 'w) io" where
  "print line = (\<lambda>s. Some (Inr (), s\<lparr>stdout := stdout s @ [line]\<rparr>))"

fun str_nat :: "nat \<Rightarrow> string" where
  "str_nat n =
     (if n < 10 then [char_of (48 + n)]
      else str_nat (n div 10) @ [char_of (48 + n mod 10)])"


section \<open>The program\<close>

definition env :: "(string \<Rightarrow> string option) \<Rightarrow> string \<Rightarrow> error + string" where
  "env environ name =
     (case environ name of
        None \<Rightarrow> Inl (RuntimeError (''Missing environment variable: '' @ name))
      | Some v \<Rightarrow>
          if v = [] then Inl (RuntimeError (''Missing environment variable: '' @ name))
          else Inr v)"

definition get_access_token ::
  "'w remote \<Rightarrow> (string \<Rightarrow> string option) \<Rightarrow> (string option, 'w) io" where
  "get_access_token rem environ =
     bind (lift (env environ ''SPOTIFY_CLIENT_ID'')) (\<lambda>client_id.
     bind (lift (env environ ''SPOTIFY_CLIENT_SECRET'')) (\<lambda>client_secret.
     bind (lift (env environ ''SPOTIFY_REFRESH_TOKEN'')) (\<lambda>refresh_token.
     bind (send (token_service rem)
             (Request POST SPOTIFY_TOKEN_URL (Basic (client_id @ '':'' @ client_secret))
                (Form [(''grant_type'', ''refresh_token''), (''refresh_token'', refresh_token)])))
       (\<lambda>body. subscript ''access_token'' body))))"

definition api_get ::
  "(request \<Rightarrow> 'w \<Rightarrow> (failure + 'a) \<times> 'w) \<Rightarrow> string \<Rightarrow> string option
     \<Rightarrow> (string \<times> param) list \<Rightarrow> ('a, 'w) io" where
  "api_get service path token params =
     send service (Request GET (SPOTIFY_API @ path) (Bearer (interpolate token)) (Query params))"

definition api_post ::
  "(request \<Rightarrow> 'w \<Rightarrow> (failure + 'a) \<times> 'w) \<Rightarrow> string \<Rightarrow> string option \<Rightarrow> json
     \<Rightarrow> ('a, 'w) io" where
  "api_post service path token json_data =
     send service (Request POST (SPOTIFY_API @ path) (Bearer (interpolate token)) (Json json_data))"

definition api_put ::
  "(request \<Rightarrow> 'w \<Rightarrow> (failure + 'a) \<times> 'w) \<Rightarrow> string \<Rightarrow> string option \<Rightarrow> json
     \<Rightarrow> ('a, 'w) io" where
  "api_put service path token json_data =
     send service (Request PUT (SPOTIFY_API @ path) (Bearer (interpolate token)) (Json json_data))"

text \<open>
  The \<open>while True\<close> loop of the playlist resolver. It runs for as long as the service
  keeps giving a \<open>next\<close> link, so it takes fuel, one unit a page; with none left it has
  not returned. Its value is \<open>Some i\<close> when the function returns \<open>i\<close> from inside
  the loop and \<open>None\<close> when the loop breaks.
\<close>

fun scan_playlists ::
  "'w remote \<Rightarrow> nat \<Rightarrow> string option \<Rightarrow> string \<Rightarrow> int \<Rightarrow> int
     \<Rightarrow> (string option option, 'w) io" where
  "scan_playlists rem 0 token name limit offset = (\<lambda>s. None)"
| "scan_playlists rem (Suc fuel) token name limit offset =
     bind (api_get (playlists_service rem) ''/me/playlists'' token
             [(''limit'', PInt limit), (''offset'', PInt offset)])
       (\<lambda>page.
          case find (\<lambda>p. pl_name p = Some name) (page_items page) of
            Some p \<Rightarrow> bind (subscript ''id'' (pl_id p)) (\<lambda>i. ret (Some i))
          | None \<Rightarrow>
              if truthy (page_next page)
              then scan_playlists rem fuel token name limit (offset + limit)
              else ret None)"

definition get_or_create_playlist ::
  "'w remote \<Rightarrow> nat \<Rightarrow> string option \<Rightarrow> string \<Rightarrow> string \<Rightarrow> string \<Rightarrow> bool
     \<Rightarrow> (string option, 'w) io" where
  "get_or_create_playlist rem fuel token user_id name description public =
     bind (scan_playlists rem fuel token name 50 0) (\<lambda>found.
       case found of
         Some i \<Rightarrow> ret i
       | None \<Rightarrow>
           bind (api_post (create_service rem) (''/users/'' @ user_id @ ''/playlists'') token
                   (JObj [(''name'', JStr name), (''public'', JBool public),
                          (''description'', JStr description)]))
             (\<lambda>resp. subscript ''id'' resp))"

definition search_show_id ::
  "'w remote \<Rightarrow> string option \<Rightarrow> string \<Rightarrow> (string option, 'w) io" where
  "search_show_id rem token query =
     bind (api_get (search_service rem) ''/search'' token
             [(''q'', PStr query), (''type'', PStr ''show''), (''market'', PStr MARKET),
              (''limit'', PInt 1)])
       (\<lambda>items.
          case items of
            [] \<Rightarrow> ret None
          | first # _ \<Rightarrow> subscript ''id'' (podcast_id first))"

text \<open>
  The \<open>for\<close> loop of the freshness selector: the first episode, in the order fetched,
  that has a release date, whose date parses and whose elapsed hours are within the
  window; \<open>None\<close> when the loop ends without returning.
\<close>

fun first_fresh :: "datetime \<Rightarrow> int \<Rightarrow> episode list \<Rightarrow> episode option" where
  "first_fresh now fresh_hours [] = None"
| "first_fresh now fresh_hours (e # es) =
     (if \<not> truthy (ep_release_date e) then first_fresh now fresh_hours es
      else case parse_release (the (ep_release_date e)) of
        None \<Rightarrow> first_fresh now fresh_hours es
      | Some release_dt \<Rightarrow>
          if within_window now release_dt fresh_hours then Some e
          else first_fresh now fresh_hours es)"

text \<open>The test one pass of that loop makes of an episode.\<close>

definition is_fresh :: "datetime \<Rightarrow> int \<Rightarrow> episode \<Rightarrow> bool" where
  "is_fresh now fresh_hours e =
     (truthy (ep_release_date e) \<and>
      (case parse_release (the (ep_release_date e)) of
         None \<Rightarrow> False
       | Some release_dt \<Rightarrow> within_window now release_dt fresh_hours))"

definition get_latest_fresh_episode_uri ::
  "'w remote \<Rightarrow> string option \<Rightarrow> string \<Rightarrow> int \<Rightarrow> (string option, 'w) io" where
  "get_latest_fresh_episode_uri rem token show_id fresh_hours =
     bind (api_get (episodes_service rem) (''/shows/'' @ show_id @ ''/episodes'') token
             [(''market'', PStr MARKET), (''limit'', PInt 3)])
       (\<lambda>items.
          case items of
            [] \<Rightarrow> ret None
          | newest # _ \<Rightarrow>
              bind (utcnow rem) (\<lambda>now.
                case first_fresh now fresh_hours items of
                  Some e \<Rightarrow> subscript ''uri'' (ep_uri e)
                | None \<Rightarrow> subscript ''uri'' (ep_uri newest)))"

text \<open>
  The builder's two accumulators, \<open>episode_uris\<close> and \<open>seen\<close>, are passed through
  \<open>add_latest\<close> as a pair.
\<close>

definition add_latest ::
  "'w remote \<Rightarrow> string option \<Rightarrow> string \<Rightarrow> string list \<times> string set
     \<Rightarrow> (string list \<times> string set, 'w) io" where
  "add_latest rem token show_query acc =
     bind (search_show_id rem token show_query) (\<lambda>show_id.
       if \<not> truthy show_id then ret acc
       else bind (get_latest_fresh_episode_uri rem token (the show_id) FRESH_HOURS) (\<lambda>uri.
         if truthy uri \<and> the uri \<notin> snd acc
         then bind (sleep rem) (\<lambda>_. ret (fst acc @ [the uri], insert (the uri) (snd acc)))
         else ret acc))"

fun add_all ::
  "'w remote \<Rightarrow> string option \<Rightarrow> string list \<Rightarrow> string list \<times> string set
     \<Rightarrow> (string list \<times> string set, 'w) io" where
  "add_all rem token [] acc = ret acc"
| "add_all rem token (query # queries) acc =
     bind (add_latest rem token query acc) (add_all rem token queries)"

definition build_episode_list :: "'w remote \<Rightarrow> string option \<Rightarrow> (string list, 'w) io" where
  "build_episode_list rem token =
     bind (add_all rem token (NEWS_SHOW_QUERIES @ SPORTS_SHOW_QUERIES) ([], {}))
       (\<lambda>acc. ret (take 20 (fst acc)))"

definition replace_playlist_items ::
  "'w remote \<Rightarrow> string option \<Rightarrow> string option \<Rightarrow> string list \<Rightarrow> (unit, 'w) io" where
  "replace_playlist_items rem token playlist_id uris =
     api_put (replace_service rem) (''/playlists/'' @ interpolate playlist_id @ ''/tracks'') token
       (JObj [(''uris'', JList (map JStr uris))])"

definition UPDATED_PREFIX :: string where
  "UPDATED_PREFIX = ''Playlist atualizada com ''"

definition UPDATED_SUFFIX :: string where
  "UPDATED_SUFFIX = '' epis'' @ [CHR 0xC3, CHR 0xB3] @ ''dios.''"

definition NOTHING_FRESH :: string where
  "NOTHING_FRESH =
     ''Nenhum epis'' @ [CHR 0xC3, CHR 0xB3] @ ''dio fresco encontrado; playlist n''
       @ [CHR 0xC3, CHR 0xA3] @ ''o atualizada.''"

definition main :: "'w remote \<Rightarrow> (string \<Rightarrow> string option) \<Rightarrow> nat \<Rightarrow> (unit, 'w) io" where
  "main rem environ fuel =
     bind (get_access_token rem environ) (\<lambda>token.
     bind (lift (env environ ''SPOTIFY_USER_ID'')) (\<lambda>user_id.
     bind (get_or_create_playlist rem fuel token user_id PLAYLIST_NAME PLAYLIST_DESCRIPTION False)
       (\<lambda>playlist_id.
     bind (build_episode_list rem token) (\<lambda>episode_uris.
       if episode_uris \<noteq> []
       then bind (replace_playlist_items rem token playlist_id episode_uris) (\<lambda>_.
              print (UPDATED_PREFIX @ str_nat (length episode_uris) @ UPDATED_SUFFIX))
       else print NOTHING_FRESH))))"


section \<open>Histories and termination\<close>

text \<open>A computation that returns or raises from every state.\<close>

definition returns :: "('a, 'w) io \<Rightarrow> bool" where
  "returns m = (\<forall>s. m s \<noteq> None)"

text \<open>
  What one configured show yields: the search and the selection that open
  \<open>add_latest\<close>, \<open>None\<close> when the show is not found, has no episode, or the
  selected episode holds \<open>null\<close> for its URI.
\<close>

definition show_outcome ::
  "'w remote \<Rightarrow> string option \<Rightarrow> string \<Rightarrow> (string option, 'w) io" where
  "show_outcome rem token show_query =
     bind (search_show_id rem token show_query) (\<lambda>show_id.
       if \<not> truthy show_id then ret None
       else get_latest_fresh_episode_uri rem token (the show_id) FRESH_HOURS)"

text \<open>
  The history of the builder's loop: the same calls in the same order, with the same
  pauses, returning for each query in turn what its show yielded.
\<close>

fun outcomes ::
  "'w remote \<Rightarrow> string option \<Rightarrow> string list \<Rightarrow> string set
     \<Rightarrow> (string option list, 'w) io" where
  "outcomes rem token [] seen = ret []"
| "outcomes rem token (query # queries) seen =
     bind (show_outcome rem token query) (\<lambda>uri.
       if truthy uri \<and> the uri \<notin> seen
       then bind (sleep rem) (\<lambda>_.
              bind (outcomes rem token queries (insert (the uri) seen)) (\<lambda>ys. ret (uri # ys)))
       else bind (outcomes rem token queries seen) (\<lambda>ys. ret (uri # ys)))"

text \<open>The URIs among the outcomes, in order: those present and not empty.\<close>

definition yielded_uris :: "string option list \<Rightarrow> string list" where
  "yielded_uris ys = map the (filter truthy ys)"


section \<open>A fixed remote service for examples\<close>

text \<open>
  A service that answers from fixed data and has no state of its own: the playlist pages
  by offset, the shows by query, the episodes by request URL, one instant for the clock.
\<close>

definition query_param :: "request \<Rightarrow> string \<Rightarrow> param option" where
  "query_param req key = (case content req of Query ps \<Rightarrow> map_of ps key | _ \<Rightarrow> None)"

definition page_at :: "page list \<Rightarrow> request \<Rightarrow> page" where
  "page_at pages req =
     (case (query_param req ''limit'', query_param req ''offset'') of
        (Some (PInt l), Some (PInt off)) \<Rightarrow>
          if 0 < l \<and> 0 \<le> off \<and> nat (off div l) < length pages
          then pages ! nat (off div l) else Page [] None
      | _ \<Rightarrow> Page [] None)"

definition shows_for :: "(string \<Rightarrow> podcast list) \<Rightarrow> request \<Rightarrow> podcast list" where
  "shows_for shows req =
     (case query_param req ''q'' of Some (PStr q) \<Rightarrow> shows q | _ \<Rightarrow> [])"

definition fixed_remote ::
  "page list \<Rightarrow> (string \<Rightarrow> podcast list) \<Rightarrow> (string \<Rightarrow> episode list) \<Rightarrow> datetime
     \<Rightarrow> unit remote" where
  "fixed_remote pages shows episodes now =
     \<lparr> token_service = (\<lambda>req w. (Inr (Str ''token''), w)),
       playlists_service = (\<lambda>req w. (Inr (page_at pages req), w)),
       create_service = (\<lambda>req w. (Inr (Str ''created''), w)),
       search_service = (\<lambda>req w. (Inr (shows_for shows req), w)),
       episodes_service = (\<lambda>req w. (Inr (episodes (url req)), w)),
       replace_service = (\<lambda>req w. (Inr (), w)),
       clock = (\<lambda>w. (now, w)),
       pause = (\<lambda>w. w) \<rparr>"

definition start :: "unit state" where
  "start = \<lparr>world = (), calls = [], stdout = []\<rparr>"

definition noon_jan_10 :: datetime where
  "noon_jan_10 =
     \<lparr>year = 2024, month = 1, day = 10, hour = 12, minute = 0, second = 0, microsecond = 0\<rparr>"

text \<open>A show that is found and has no episode.\<close>

definition silent_show :: "unit remote" where
  "silent_show = fixed_remote [] (\<lambda>q. [Podcast (Str ''show1'')]) (\<lambda>u. []) noon_jan_10"


text \<open>
  Three episodes, all released weeks before the clock's instant; the year of the second
  is written in Arabic-Indic digits.
\<close>

definition stale_episodes :: "episode list" where
  "stale_episodes =
     [Episode (Some ''2023-12-01'') (Str ''spotify:episode:dec01''),
      Episode (Some ([CHR 0xD9, CHR 0xA2, CHR 0xD9, CHR 0xA0, CHR 0xD9, CHR 0xA2, CHR 0xD9, CHR 0xA3]
                     @ ''-11-20'')) (Str ''spotify:episode:nov20''),
      Episode (Some ''2023-11-01'') (Str ''spotify:episode:nov01'')]"

definition stale_show :: "unit remote" where
  "stale_show = fixed_remote [] (\<lambda>q. [Podcast (Str ''show1'')]) (\<lambda>u. stale_episodes) noon_jan_10"

text \<open>
  An episode without a release date, then one released 36 hours before the clock's
  instant, midnight of 11 January 2024.
\<close>

definition midnight_jan_11 :: datetime where
  "midnight_jan_11 =
     \<lparr>year = 2024, month = 1, day = 11, hour = 0, minute = 0, second = 0, microsecond = 0\<rparr>"

definition boundary_episodes :: "episode list" where
  "boundary_episodes =
     [Episode None (Str ''spotify:episode:undated''),
      Episode (Some ''2024-01-09'') (Str ''spotify:episode:jan09''),
      Episode (Some ''2024-01-08'') (Str ''spotify:episode:jan08'')]"

definition boundary_show :: "unit remote" where
  "boundary_show =
     fixed_remote [] (\<lambda>q. [Podcast (Str ''show1'')]) (\<lambda>u. boundary_episodes) midnight_jan_11"

text \<open>
  An episode whose date does not parse, then one dated two days after the clock's
  instant, the last digit of the day written in Arabic-Indic.
\<close>

definition future_episodes :: "episode list" where
  "future_episodes =
     [Episode (Some ''soon'') (Str ''spotify:episode:soon''),
      Episode (Some (''2024-01-1'' @ [CHR 0xD9, CHR 0xA2])) (Str ''spotify:episode:jan12'')]"

definition future_show :: "unit remote" where
  "future_show =
     fixed_remote [] (\<lambda>q. [Podcast (Str ''show1'')]) (\<lambda>u. future_episodes) noon_jan_10"

text \<open>The scenario of three episodes released one, two and five days before the clock's instant.\<close>

definition scenario_episodes :: "string \<Rightarrow> string \<Rightarrow> string \<Rightarrow> episode list" where
  "scenario_episodes u1 u2 u3 =
     [Episode (Some ''2024-01-09'') (Str u1),
      Episode (Some ''2024-01-08'') (Str u2),
      Episode (Some ''2024-01-05'') (Str u3)]"

definition scenario_show :: "unit remote" where
  "scenario_show =
     fixed_remote [] (\<lambda>q. [Podcast (Str ''show1'')])
       (\<lambda>u. scenario_episodes ''spotify:episode:a'' ''spotify:episode:b'' ''spotify:episode:c'')
       noon_jan_10"


text \<open>
  Six shows: the third query finds a show whose episode holds \<open>null\<close> for its URI,
  the fourth finds no show, the second and the fifth find the same show, the sixth finds
  a show without episodes.
\<close>

definition six_shows :: "unit remote" where
  "six_shows =
     fixed_remote []
       (\<lambda>q. if q = ''Ao Ponto'' then [] else [Podcast (Str (take 3 q))])
       (\<lambda>u. if u = SPOTIFY_API @ ''/shows/CBN/episodes'' then []
             else if u = SPOTIFY_API @ ''/shows/Caf/episodes''
               then [Episode (Some ''2024-01-09'') Null]
             else [Episode (Some ''2024-01-09'') (Str (''uri:'' @ drop 26 u))])
       noon_jan_10"


section \<open>Running computations\<close>

lemma bind_ret: "bind (ret x) f = f x"
  by (simp add: bind_def ret_def)

lemma bind_raise: "bind (raise e) f = raise e"
  by (simp add: bind_def raise_def)

lemma bind_lift_Inr: "bind (lift (Inr x)) f = f x"
  by (simp add: bind_def lift_def)

lemma bind_lift_Inl: "bind (lift (Inl e)) f = raise e"
  by (simp add: bind_def lift_def raise_def)

lemma bind_cases:
  assumes "bind m f s = Some (r, s')"
  obtains (raised) e where "m s = Some (Inl e, s')" and "r = Inl e"
        | (returned) x s1 where "m s = Some (Inr x, s1)" and "f x s1 = Some (r, s')"
  using assms by (auto simp: bind_def split: option.splits sum.splits prod.splits)


section \<open>Rounding to binary64\<close>

text \<open>
  Two facts about \<open>to_double\<close> carry the claims about elapsed hours: an integer
  below \<open>2^53\<close> in magnitude is its own rounding, and the rounding of a number at or
  below \<open>-2^k\<close> (in the normal range) stays at or below \<open>-2^k\<close>.
\<close>

lemma pow2_powi: "pow2 k = 2 powi k"
  by (simp add: pow2_def power_int_def field_simps)

lemma pow2_pos: "0 < pow2 k"
  by (simp add: pow2_powi)

lemma pow2_add: "pow2 (a + b) = pow2 a * pow2 b"
  by (simp add: pow2_powi power_int_add)

lemma pow2_diff: "pow2 (a - b) = pow2 a / pow2 b"
  by (simp add: pow2_powi power_int_diff)

lemma pow2_nat: "0 \<le> k \<Longrightarrow> pow2 k = of_int (2 ^ nat k)"
  by (simp add: pow2_def)

lemma pow2_0: "pow2 0 = 1"
  by (simp add: pow2_def)

lemma pow2_52: "pow2 52 = of_int (2 ^ 52)"
  by (simp add: pow2_def)

lemma pow2_53: "pow2 53 = of_int (2 ^ 53)"
  by (simp add: pow2_def)

lemma pow2_mono: "a \<le> b \<Longrightarrow> pow2 a \<le> pow2 b"
  by (simp add: pow2_powi power_int_increasing)

lemma pow2_less_imp: "pow2 a < pow2 b \<Longrightarrow> a < b"
  using pow2_mono [of b a] by (cases "a < b") auto

lemma bitlen_rat_bounds:
  assumes "0 < (a::int)"
  shows "pow2 (bitlen a - 1) \<le> of_int a" and "of_int a < pow2 (bitlen a)"
proof -
  have b: "2 ^ nat (bitlen a - 1) \<le> a" "a < 2 ^ nat (bitlen a)"
    using bitlen_bounds [OF assms] by auto
  have ge1: "1 \<le> bitlen a"
    using assms bitlen_eq_zero_iff [of a] bitlen_nonneg [of a] by linarith
  have "pow2 (bitlen a - 1) = of_int (2 ^ nat (bitlen a - 1))"
    using ge1 by (simp add: pow2_nat)
  also have "\<dots> \<le> of_int a"
    using b(1) by (simp only: of_int_le_iff)
  finally show "pow2 (bitlen a - 1) \<le> of_int a" .
  have "(of_int a :: rat) < of_int (2 ^ nat (bitlen a))"
    using b(2) by (simp only: of_int_less_iff)
  also have "\<dots> = pow2 (bitlen a)"
    using ge1 by (simp add: pow2_nat)
  finally show "of_int a < pow2 (bitlen a)" .
qed

lemma binary_exponent_bounds:
  assumes "0 < q"
  shows "pow2 (binary_exponent q) \<le> q" and "q < pow2 (binary_exponent q + 1)"
proof -
  obtain a b where ab: "quotient_of q = (a, b)"
    by (cases "quotient_of q")
  have bpos: "0 < b"
    using ab by (rule quotient_of_denom_pos)
  have q: "q = of_int a / of_int b"
    using ab by (rule quotient_of_div)
  have apos: "0 < a"
    using assms bpos q by (simp add: zero_less_divide_iff)
  let ?k = "bitlen a - bitlen b"
  have lo: "pow2 (?k - 1) \<le> q"
  proof -
    have "pow2 (?k - 1) = pow2 (bitlen a - 1) / pow2 (bitlen b)"
      by (simp add: pow2_diff [symmetric] algebra_simps)
    also have "\<dots> \<le> of_int a / of_int b"
      using bitlen_rat_bounds [OF apos] bitlen_rat_bounds [OF bpos] bpos apos pow2_pos
      by (intro frac_le) (auto intro: less_imp_le)
    finally show ?thesis by (simp add: q)
  qed
  have hi: "q < pow2 (?k + 1)"
  proof -
    have "of_int a / of_int b < pow2 (bitlen a) / pow2 (bitlen b - 1)"
      using bitlen_rat_bounds [OF apos] bitlen_rat_bounds [OF bpos] bpos apos
        pow2_pos [of "bitlen b - 1"]
      by (intro frac_less) auto
    also have "\<dots> = pow2 (?k + 1)"
      by (simp add: pow2_diff [symmetric] algebra_simps)
    finally show ?thesis by (simp add: q)
  qed
  have e: "binary_exponent q = (if pow2 ?k \<le> q then ?k else ?k - 1)"
    by (simp add: binary_exponent_def ab Let_def)
  show "pow2 (binary_exponent q) \<le> q"
    using lo by (simp add: e)
  show "q < pow2 (binary_exponent q + 1)"
    using hi by (auto simp: e)
qed

lemma round_half_even_of_int: "round_half_even (of_int n) = n"
  by (simp add: round_half_even_def)

lemma round_half_even_ge: "of_int n \<le> m \<Longrightarrow> n \<le> round_half_even m"
proof -
  assume "of_int n \<le> m"
  then have "n \<le> \<lfloor>m\<rfloor>" by (simp add: le_floor_iff)
  then show ?thesis by (auto simp: round_half_even_def Let_def)
qed

lemma round_pos_lower:
  assumes "pow2 k \<le> q" and "- 1022 \<le> k"
  shows "pow2 k \<le> round_pos q"
proof -
  have qpos: "0 < q"
    using assms(1) pow2_pos [of k] by linarith
  let ?e = "binary_exponent q"
  have "pow2 k < pow2 (?e + 1)"
    using assms(1) binary_exponent_bounds(2) [OF qpos] by linarith
  then have ke: "k \<le> ?e"
    using pow2_less_imp [of k "?e + 1"] by simp
  then have m: "max ?e (- 1022) = ?e"
    using assms(2) by simp
  let ?ulp = "pow2 (?e - 52)"
  have split: "pow2 52 * ?ulp = pow2 ?e"
    using pow2_add [of 52 "?e - 52"] by simp
  have "of_int (2 ^ 52) = pow2 ?e / ?ulp"
    using pow2_pos [of "?e - 52"] by (simp only: split [symmetric] pow2_52 [symmetric]) simp
  also have "\<dots> \<le> q / ?ulp"
    using binary_exponent_bounds(1) [OF qpos] pow2_pos [of "?e - 52"]
    by (simp add: divide_right_mono)
  finally have "2 ^ 52 \<le> round_half_even (q / ?ulp)"
    by (rule round_half_even_ge)
  then have "(of_int (2 ^ 52) :: rat) \<le> of_int (round_half_even (q / ?ulp))"
    by (simp only: of_int_le_iff)
  then have "of_int (2 ^ 52) * ?ulp \<le> of_int (round_half_even (q / ?ulp)) * ?ulp"
    using pow2_pos [of "?e - 52"] by (simp add: mult_right_mono)
  moreover have "of_int (2 ^ 52) * ?ulp = pow2 ?e"
    using split by (simp only: pow2_52)
  ultimately have "pow2 ?e \<le> round_pos q"
    by (simp add: round_pos_def m Let_def)
  with pow2_mono [OF ke] show ?thesis by linarith
qed

lemma div_inverse_of_int: "(of_int n :: rat) / (1 / of_int p) = of_int (n * p)"
  by simp

lemma mult_inverse_of_int: "p \<noteq> 0 \<Longrightarrow> of_int (n * p) * (1 / of_int p) = (of_int n :: rat)"
  by simp

lemma round_pos_of_int:
  assumes "0 < n" and "n < 2 ^ 53"
  shows "round_pos (of_int n) = of_int n"
proof -
  let ?q = "of_int n :: rat"
  let ?e = "binary_exponent ?q"
  have qpos: "0 < ?q" using assms(1) by simp
  have "(1::rat) \<le> ?q" using assms(1) by simp
  then have "pow2 0 < pow2 (?e + 1)"
    using binary_exponent_bounds(2) [OF qpos] by (simp only: pow2_0)
  then have e0: "0 \<le> ?e"
    using pow2_less_imp [of 0 "?e + 1"] by simp
  have "?q < of_int (2 ^ 53)"
    using assms(2) by (simp only: of_int_less_iff)
  then have "pow2 ?e < pow2 53"
    using binary_exponent_bounds(1) [OF qpos] by (simp only: pow2_53)
  then have e52: "?e \<le> 52"
    using pow2_less_imp [of ?e 53] by simp
  have m: "max ?e (- 1022) = ?e" using e0 by simp
  let ?ulp = "pow2 (?e - 52)"
  have ulp: "?ulp = 1 / of_int (2 ^ nat (52 - ?e))"
    using e52 by (cases "?e = 52") (simp_all add: pow2_def)
  have "?q / ?ulp = of_int (n * 2 ^ nat (52 - ?e))"
    unfolding ulp by (rule div_inverse_of_int)
  then have "round_half_even (?q / ?ulp) = n * 2 ^ nat (52 - ?e)"
    by (simp only: round_half_even_of_int)
  then have "round_pos ?q = of_int (n * 2 ^ nat (52 - ?e)) * ?ulp"
    by (simp add: round_pos_def m Let_def)
  also have "\<dots> = ?q"
    unfolding ulp by (rule mult_inverse_of_int) simp
  finally show ?thesis .
qed



lemma to_double_of_int:
  assumes "\<bar>n\<bar> < 2 ^ 53"
  shows "to_double (of_int n) = of_int n"
proof -
  consider "n = 0" | "0 < n" | "n < 0" by linarith
  then show ?thesis
  proof cases
    case 1 then show ?thesis by (simp add: to_double_def)
  next
    case 2
    with assms round_pos_of_int [of n] show ?thesis by (simp add: to_double_def)
  next
    case 3
    with assms round_pos_of_int [of "- n"] show ?thesis by (simp add: to_double_def)
  qed
qed

lemma to_double_neg_upper:
  assumes "q \<le> - pow2 k" and "- 1022 \<le> k"
  shows "to_double q \<le> - pow2 k"
proof -
  have "q < 0" using assms(1) pow2_pos [of k] by linarith
  moreover have "pow2 k \<le> round_pos (- q)"
    using assms by (intro round_pos_lower) auto
  ultimately show ?thesis by (simp add: to_double_def)
qed


section \<open>Calendar bounds and parsed dates\<close>

lemma days_before_year_bounds:
  assumes "1 \<le> y" and "y \<le> 9999"
  shows "0 \<le> days_before_year y" and "days_before_year y \<le> 3651793"
proof -
  define z where "z = y - 1"
  define a where "a = z div 4"
  define b where "b = z div 100"
  define c where "c = z div 400"
  have z: "0 \<le> z" "z \<le> 9998" using assms by (simp_all add: z_def)
  have "z div 4 \<le> 9998 div 4"
    using z(2) by (intro zdiv_mono1) simp_all
  then have a: "a \<le> 2499" by (simp add: a_def)
  have "z div 400 \<le> 9998 div 400"
    using z(2) by (intro zdiv_mono1) simp_all
  then have c: "c \<le> 24" "0 \<le> c" using z(1) by (simp_all add: c_def)
  have b: "0 \<le> b" "b \<le> a"
    using z(1) by (simp_all add: a_def b_def zdiv_mono2)
  have d: "days_before_year y = z * 365 + a - b + c"
    by (simp add: days_before_year_def z_def a_def b_def c_def)
  show "0 \<le> days_before_year y"
    using z a b c unfolding d by linarith
  show "days_before_year y \<le> 3651793"
    using z a b c unfolding d by linarith
qed

lemma sum_list_take_bounds:
  fixes xs :: "int list"
  assumes "\<forall>x\<in>set xs. 0 \<le> x"
  shows "0 \<le> sum_list (take k xs) \<and> sum_list (take k xs) \<le> sum_list xs"
  using assms
proof (induction xs arbitrary: k)
  case Nil
  then show ?case by simp
next
  case (Cons x xs)
  show ?case
  proof (cases k)
    case 0
    with Cons.prems show ?thesis by (simp add: sum_list_nonneg)
  next
    case (Suc j)
    with Cons.IH [of j] Cons.prems show ?thesis by simp
  qed
qed

lemma days_before_month_bounds:
  shows "0 \<le> days_before_month y m" and "days_before_month y m \<le> 366"
proof -
  have "\<forall>x\<in>set DAYS_IN_MONTH. 0 \<le> x"
    by (simp add: DAYS_IN_MONTH_def)
  from sum_list_take_bounds [OF this, of "nat (m - 1)"]
  have "0 \<le> sum_list (take (nat (m - 1)) DAYS_IN_MONTH)"
    and "sum_list (take (nat (m - 1)) DAYS_IN_MONTH) \<le> 365"
    by (simp_all add: DAYS_IN_MONTH_def)
  then show "0 \<le> days_before_month y m" and "days_before_month y m \<le> 366"
    by (simp_all add: days_before_month_def)
qed

lemma days_in_month_le:
  assumes "1 \<le> m" and "m \<le> 12"
  shows "days_in_month y m \<le> 31"
proof -
  have "nat (m - 1) < length DAYS_IN_MONTH"
    using assms by (simp add: DAYS_IN_MONTH_def)
  then have "DAYS_IN_MONTH ! nat (m - 1) \<in> set DAYS_IN_MONTH"
    by (rule nth_mem)
  then have "DAYS_IN_MONTH ! nat (m - 1) \<le> 31"
    by (auto simp: DAYS_IN_MONTH_def)
  then show ?thesis by (simp add: days_in_month_def)
qed

lemma to_micros_bounds:
  assumes "valid_datetime t"
  shows "0 \<le> to_micros t" and "to_micros t < 315549302400000000"
proof -
  let ?o = "ymd2ord (year t) (month t) (day t)"
  have v: "1 \<le> year t" "year t \<le> 9999" "1 \<le> month t" "month t \<le> 12"
    "1 \<le> day t" "day t \<le> days_in_month (year t) (month t)"
    "0 \<le> hour t" "hour t < 24" "0 \<le> minute t" "minute t < 60"
    "0 \<le> second t" "second t < 60" "0 \<le> microsecond t" "microsecond t < 1000000"
    using assms by (simp_all add: valid_datetime_def)
  have d: "day t \<le> 31"
    using v(6) days_in_month_le [OF v(3,4), of "year t"] by linarith
  have o: "0 \<le> ?o" "?o \<le> 3652190"
    using days_before_year_bounds [OF v(1,2)]
      days_before_month_bounds [of "year t" "month t"] v(5) d
    by (simp_all add: ymd2ord_def)
  define h where "h = ?o * 24 + hour t"
  define mi where "mi = h * 60 + minute t"
  define se where "se = mi * 60 + second t"
  have h: "0 \<le> h" "h \<le> 87652583"
    using o v(7,8) by (simp_all add: h_def)
  have mi: "0 \<le> mi" "mi \<le> 5259155039"
    using h v(9,10) by (simp_all add: mi_def)
  have se: "0 \<le> se" "se \<le> 315549302399"
    using mi v(11,12) by (simp_all add: se_def)
  have t: "to_micros t = se * 1000000 + microsecond t"
    by (simp add: to_micros_def se_def mi_def h_def)
  show "0 \<le> to_micros t"
    using se(1) v(13) by (simp add: t)
  show "to_micros t < 315549302400000000"
    using se(2) v(14) by (simp add: t)
qed

lemma in_range_digit:
  "in_range CHR ''0'' CHR ''9'' c \<Longrightarrow> 0 \<le> digit_val c \<and> digit_val c \<le> 9"
  "in_range CHR ''1'' CHR ''9'' c \<Longrightarrow> 1 \<le> digit_val c \<and> digit_val c \<le> 9"
  "in_range CHR ''0'' CHR ''2'' c \<Longrightarrow> 0 \<le> digit_val c \<and> digit_val c \<le> 2"
  "in_range CHR ''0'' CHR ''1'' c \<Longrightarrow> 0 \<le> digit_val c \<and> digit_val c \<le> 1"
  "in_range CHR ''1'' CHR ''2'' c \<Longrightarrow> 1 \<le> digit_val c \<and> digit_val c \<le> 2"
  by (auto simp: in_range_def digit_val_def)

lemma decimal_range: "decimal c = Some v \<Longrightarrow> 0 \<le> v \<and> v \<le> 9"
  by (auto simp: decimal_def find_Some_iff split: option.splits)

lemma match_year_range:
  "match_year s = Some (y, r) \<Longrightarrow> 0 \<le> y \<and> y \<le> 9999"
proof (induction s rule: match_year.induct)
  case (1 a b c d rest)
  then obtain x3 x2 x1 x0 where
    x: "decimal a = Some x3" "decimal b = Some x2" "decimal c = Some x1" "decimal d = Some x0"
    and y: "y = x3 * 1000 + x2 * 100 + x1 * 10 + x0"
    by (auto split: option.splits)
  show ?case
    using decimal_range [OF x(1)] decimal_range [OF x(2)] decimal_range [OF x(3)]
      decimal_range [OF x(4)]
    by (simp add: y)
qed simp_all

lemma match_month_range:
  "match_month s = Some (m, r) \<Longrightarrow> 1 \<le> m \<and> m \<le> 12"
proof (induction s rule: match_month.induct)
  case (1 a b rest)
  then show ?case
    using in_range_digit [of b] in_range_digit [of a]
    by (auto split: if_splits)
next
  case (2 a)
  then show ?case using in_range_digit [of a] by (auto split: if_splits)
qed simp

lemma match_day_range:
  "match_day s = Some (d, r) \<Longrightarrow> 1 \<le> d"
proof (induction s rule: match_day.induct)
  case (1 a b rest)
  show ?case
  proof (cases "decimal b")
    case None
    with 1 show ?thesis
      using in_range_digit [of b] in_range_digit [of a]
      by (auto split: if_splits)
  next
    case (Some v)
    with 1 decimal_range [OF Some] show ?thesis
      using in_range_digit [of b] in_range_digit [of a]
      by (auto split: if_splits)
  qed
next
  case (2 a)
  then show ?case using in_range_digit [of a] by (auto split: if_splits)
qed simp

lemma strptime_ymd_valid:
  assumes "strptime_ymd s = Some t"
  shows "valid_datetime t \<and> hour t = 0"
proof -
  from assms obtain y m d c1 c2 r1 r2 where
    y: "match_year s = Some (y, c1 # r1)"
    and m: "match_month r1 = Some (m, c2 # r2)"
    and d: "match_day r2 = Some (d, [])"
    and ok: "1 \<le> y" "d \<le> days_in_month y m"
    and t: "t = \<lparr>year = y, month = m, day = d, hour = 0, minute = 0, second = 0,
                 microsecond = 0\<rparr>"
    by (auto simp: strptime_ymd_def split: option.splits list.splits if_splits prod.splits)
  show ?thesis
    using match_year_range [OF y] match_month_range [OF m] match_day_range [OF d] ok
    by (simp add: t valid_datetime_def)
qed

lemma parse_release_valid:
  assumes "parse_release s = Some t"
  shows "valid_datetime t"
proof -
  from assms obtain cps t0 where t0: "strptime_ymd cps = Some t0" and t: "t = t0\<lparr>hour := 12\<rparr>"
    by (auto simp: parse_release_def split: option.splits)
  from strptime_ymd_valid [OF t0] show ?thesis
    by (simp add: t valid_datetime_def)
qed


section \<open>Elapsed hours\<close>

lemma hours_since_exact:
  assumes "valid_datetime now" and "valid_datetime release_dt"
    and "timedelta_micros now release_dt = h * 3600000000"
  shows "hours_since now release_dt = of_int h"
proof -
  have "\<bar>timedelta_micros now release_dt\<bar> < 315549302400000000"
    using to_micros_bounds [OF assms(1)] to_micros_bounds [OF assms(2)]
    by (simp add: timedelta_micros_def)
  then have h: "\<bar>h\<bar> < 87652584"
    using assms(3) by linarith
  then have b1: "\<bar>h * 3600\<bar> < 2 ^ 53" and b2: "\<bar>h\<bar> < 2 ^ 53"
    by simp_all
  have "(of_int (h * 3600000000) :: rat) / 1000000 = of_int (h * 3600)"
    by simp
  then have "total_seconds (timedelta_micros now release_dt) = of_int (h * 3600)"
    using to_double_of_int [OF b1] by (simp only: total_seconds_def assms(3))
  moreover have "(of_int (h * 3600) :: rat) / 3600 = of_int h"
    by simp
  ultimately show ?thesis
    using to_double_of_int [OF b2] by (simp only: hours_since_def)
qed

lemma hours_since_future:
  assumes "to_micros now < to_micros release_dt"
  shows "hours_since now release_dt < 0"
proof -
  let ?us = "timedelta_micros now release_dt"
  have "?us \<le> - 1"
    using assms by (simp add: timedelta_micros_def)
  then have "(of_int ?us :: rat) \<le> of_int (- 1)"
    by (simp only: of_int_le_iff)
  then have "(of_int ?us :: rat) / 1000000 \<le> - 1 / 1000000"
    by (simp add: divide_right_mono)
  moreover have "pow2 (- 20) \<le> (1 :: rat) / 1000000"
    by (simp add: pow2_def)
  ultimately have "of_int ?us / 1000000 \<le> - pow2 (- 20)"
    by linarith
  then have ts: "total_seconds ?us \<le> - pow2 (- 20)"
    unfolding total_seconds_def by (rule to_double_neg_upper) simp
  have "pow2 (- 32) \<le> pow2 (- 20) / 3600"
    by (simp add: pow2_def)
  moreover have "total_seconds ?us / 3600 \<le> - pow2 (- 20) / 3600"
    using ts by (simp add: divide_right_mono)
  ultimately have "total_seconds ?us / 3600 \<le> - pow2 (- 32)"
    by linarith
  then have "hours_since now release_dt \<le> - pow2 (- 32)"
    unfolding hours_since_def by (rule to_double_neg_upper) simp
  with pow2_pos [of "- 32"] show ?thesis by linarith
qed


section \<open>The freshness selector\<close>

lemma first_fresh_find: "first_fresh now fh es = find (is_fresh now fh) es"
  by (induction es) (auto simp: is_fresh_def split: option.splits)



lemma selector_run:
  assumes "api_get (episodes_service rem) (''/shows/'' @ show_id @ ''/episodes'') token
             [(''market'', PStr MARKET), (''limit'', PInt 3)] s = Some (Inr (newest # rest), s1)"
    and "utcnow rem s1 = Some (Inr now, s2)"
  shows "get_latest_fresh_episode_uri rem token show_id fresh_hours s =
     Some (lookup ''uri'' (ep_uri (case find (is_fresh now fresh_hours) (newest # rest) of
                                     Some e \<Rightarrow> e | None \<Rightarrow> newest)), s2)"
  using assms
  by (simp add: get_latest_fresh_episode_uri_def bind_def first_fresh_find subscript_def
      lift_def split: option.splits)

lemma find_first_match:
  assumes "\<forall>x\<in>set before. \<not> P x" and "P e"
  shows "find P (before @ e # after) = Some e"
  using assms by (induction before) simp_all

lemma find_no_match: "(\<forall>x\<in>set xs. \<not> P x) \<Longrightarrow> find P xs = None"
  by (simp add: find_None_iff)

lemma parse_release_nonempty: "parse_release rd = Some t \<Longrightarrow> rd \<noteq> []"
  by (auto simp: parse_release_def strptime_ymd_def)

lemma is_fresh_parsed:
  assumes "ep_release_date e = Some rd" and "parse_release rd = Some release_dt"
  shows "is_fresh now fresh_hours e = within_window now release_dt fresh_hours"
  using assms parse_release_nonempty [OF assms(2)] by (simp add: is_fresh_def truthy_def)

text \<open>
  C2. When the listing of a show is not empty and no listed episode passes the test of
  the loop (each has no release date, or a date that does not parse, or elapsed hours
  above the window), the selector returns what the first episode of the listing holds
  under \<open>uri\<close>: its URI (\<open>None\<close> where it holds \<open>null\<close>; with no such key the
  lookup raises \<open>KeyError\<close>).
\<close>
theorem stale_show_falls_back:
  assumes "api_get (episodes_service rem) (''/shows/'' @ show_id @ ''/episodes'') token
             [(''market'', PStr MARKET), (''limit'', PInt 3)] s = Some (Inr (newest # rest), s1)"
    and "utcnow rem s1 = Some (Inr now, s2)"
    and "\<forall>e\<in>set (newest # rest). \<not> is_fresh now fresh_hours e"
  shows "get_latest_fresh_episode_uri rem token show_id fresh_hours s =
     Some (lookup ''uri'' (ep_uri newest), s2)"
  using find_no_match [OF assms(3)]
  by (simp add: selector_run [OF assms(1,2)])

text \<open>
  C3. An episode released exactly \<open>fresh_hours\<close> hours before the clock's instant
  (its release day at noon UTC) has elapsed hours equal to the window, the comparison
  \<open>\<le>\<close> holds for it, and the selector returns what it holds under \<open>uri\<close> when
  no episode listed before it passes the test.
\<close>
theorem boundary_is_inclusive:
  assumes "valid_datetime now"
    and "ep_release_date e = Some rd" and "parse_release rd = Some release_dt"
    and "timedelta_micros now release_dt = fresh_hours * 3600000000"
    and "\<forall>x\<in>set before. \<not> is_fresh now fresh_hours x"
    and "api_get (episodes_service rem) (''/shows/'' @ show_id @ ''/episodes'') token
           [(''market'', PStr MARKET), (''limit'', PInt 3)] s = Some (Inr (before @ e # after), s1)"
    and "utcnow rem s1 = Some (Inr now, s2)"
  shows "hours_since now release_dt = of_int fresh_hours
     \<and> within_window now release_dt fresh_hours
     \<and> first_fresh now fresh_hours (before @ e # after) = Some e
     \<and> get_latest_fresh_episode_uri rem token show_id fresh_hours s =
         Some (lookup ''uri'' (ep_uri e), s2)"
proof -
  have h: "hours_since now release_dt = of_int fresh_hours"
    using assms(1) parse_release_valid [OF assms(3)] assms(4) by (rule hours_since_exact)
  then have w: "within_window now release_dt fresh_hours"
    by (simp add: within_window_def)
  then have "is_fresh now fresh_hours e"
    by (simp add: is_fresh_parsed [OF assms(2,3)])
  with assms(5) have f: "find (is_fresh now fresh_hours) (before @ e # after) = Some e"
    by (rule find_first_match)
  obtain newest rest where l: "before @ e # after = newest # rest"
    by (cases before) auto
  have "get_latest_fresh_episode_uri rem token show_id fresh_hours s =
         Some (lookup ''uri'' (ep_uri e), s2)"
    using selector_run [OF assms(6) [unfolded l] assms(7), of fresh_hours] f
    by (simp add: l)
  with h w f show ?thesis by (simp add: first_fresh_find)
qed

text \<open>
  C9. With a window that is not negative, an episode whose release instant (its release
  day at noon UTC) lies after the clock's instant has negative elapsed hours and passes
  the test; the selector returns what it holds under \<open>uri\<close> when no episode listed
  before it passes.
\<close>
theorem future_release_is_fresh:
  assumes "0 \<le> fresh_hours"
    and "ep_release_date e = Some rd" and "parse_release rd = Some release_dt"
    and "to_micros now < to_micros release_dt"
    and "\<forall>x\<in>set before. \<not> is_fresh now fresh_hours x"
    and "api_get (episodes_service rem) (''/shows/'' @ show_id @ ''/episodes'') token
           [(''market'', PStr MARKET), (''limit'', PInt 3)] s = Some (Inr (before @ e # after), s1)"
    and "utcnow rem s1 = Some (Inr now, s2)"
  shows "hours_since now release_dt < 0
     \<and> within_window now release_dt fresh_hours
     \<and> first_fresh now fresh_hours (before @ e # after) = Some e
     \<and> get_latest_fresh_episode_uri rem token show_id fresh_hours s =
         Some (lookup ''uri'' (ep_uri e), s2)"
proof -
  have h: "hours_since now release_dt < 0"
    using assms(4) by (rule hours_since_future)
  have "(0::rat) \<le> of_int fresh_hours"
    using assms(1) by simp
  with h have w: "within_window now release_dt fresh_hours"
    unfolding within_window_def by linarith
  then have "is_fresh now fresh_hours e"
    by (simp add: is_fresh_parsed [OF assms(2,3)])
  with assms(5) have f: "find (is_fresh now fresh_hours) (before @ e # after) = Some e"
    by (rule find_first_match)
  obtain newest rest where l: "before @ e # after = newest # rest"
    by (cases before) auto
  have "get_latest_fresh_episode_uri rem token show_id fresh_hours s =
         Some (lookup ''uri'' (ep_uri e), s2)"
    using selector_run [OF assms(6) [unfolded l] assms(7), of fresh_hours] f
    by (simp add: l)
  with h w f show ?thesis by (simp add: first_fresh_find)
qed

lemma scenario_hours:
  "map (\<lambda>e. hours_since noon_jan_10 (the (parse_release (the (ep_release_date e)))))
     (scenario_episodes u1 u2 u3) = [24, 48, 120]"
proof -
  have "hours_since noon_jan_10 (the (parse_release ''2024-01-09'')) = 24"
    "hours_since noon_jan_10 (the (parse_release ''2024-01-08'')) = 48"
    "hours_since noon_jan_10 (the (parse_release ''2024-01-05'')) = 120"
    by code_simp+
  then show ?thesis by (simp add: scenario_episodes_def)
qed

lemma scenario_fresh:
  "find (is_fresh noon_jan_10 36) (scenario_episodes u1 u2 u3)
     = Some (Episode (Some ''2024-01-09'') (Str u1))"
proof -
  have "within_window noon_jan_10 (the (parse_release ''2024-01-09'')) 36"
    by code_simp
  moreover have "parse_release ''2024-01-09'' \<noteq> None"
    by code_simp
  ultimately show ?thesis
    by (auto simp add: scenario_episodes_def is_fresh_def truthy_def split: option.splits)
qed

text \<open>
  C7. With a window of 36 hours and the clock at 2024-01-10T12:00:00Z, for a listing
  dated 2024-01-09, 2024-01-08 and 2024-01-05 in that order, the elapsed hours are 24, 48
  and 120, and the selector returns the URI of the episode of 2024-01-09.
\<close>
theorem scenario_36_hours:
  assumes "api_get (episodes_service rem) (''/shows/'' @ show_id @ ''/episodes'') token
             [(''market'', PStr MARKET), (''limit'', PInt 3)] s
             = Some (Inr (scenario_episodes u1 u2 u3), s1)"
    and "utcnow rem s1 = Some (Inr noon_jan_10, s2)"
  shows "map (\<lambda>e. hours_since noon_jan_10 (the (parse_release (the (ep_release_date e)))))
           (scenario_episodes u1 u2 u3) = [24, 48, 120]
     \<and> get_latest_fresh_episode_uri rem token show_id 36 s = Some (Inr (Some u1), s2)"
proof -
  have l: "scenario_episodes u1 u2 u3 = Episode (Some ''2024-01-09'') (Str u1)
      # [Episode (Some ''2024-01-08'') (Str u2), Episode (Some ''2024-01-05'') (Str u3)]"
    by (simp add: scenario_episodes_def)
  have "get_latest_fresh_episode_uri rem token show_id 36 s = Some (Inr (Some u1), s2)"
    using selector_run [OF assms(1) [unfolded l] assms(2), of 36] scenario_fresh [of u1 u2 u3]
    by (simp add: l lookup_def)
  with scenario_hours show ?thesis by simp
qed


lemmas selector_defs = api_get_def send_def utcnow_def fixed_remote_def start_def
  MARKET_def SPOTIFY_API_def interpolate_def

theorem stale_show_falls_back_witness:
  "find (is_fresh noon_jan_10 36) stale_episodes = None
   \<and> fst (the (get_latest_fresh_episode_uri stale_show (Some ''token'') ''show1'' 36 start))
       = Inr (Some ''spotify:episode:dec01'')"
proof -
  define s1 where "s1 = snd (the (api_get (episodes_service stale_show)
      (''/shows/'' @ ''show1'' @ ''/episodes'') (Some ''token'')
      [(''market'', PStr MARKET), (''limit'', PInt 3)] start))"
  define s2 where "s2 = snd (the (utcnow stale_show s1))"
  have h1: "api_get (episodes_service stale_show) (''/shows/'' @ ''show1'' @ ''/episodes'')
      (Some ''token'') [(''market'', PStr MARKET), (''limit'', PInt 3)] start
      = Some (Inr (Episode (Some ''2023-12-01'') (Str ''spotify:episode:dec01'')
          # [Episode (Some ([CHR 0xD9, CHR 0xA2, CHR 0xD9, CHR 0xA0, CHR 0xD9, CHR 0xA2, CHR 0xD9, CHR 0xA3]
                @ ''-11-20'')) (Str ''spotify:episode:nov20''),
             Episode (Some ''2023-11-01'') (Str ''spotify:episode:nov01'')]), s1)"
    by (simp add: s1_def stale_show_def stale_episodes_def selector_defs)
  have h2: "utcnow stale_show s1 = Some (Inr noon_jan_10, s2)"
    by (simp add: s2_def s1_def stale_show_def selector_defs)
  have h3: "\<forall>e\<in>set (Episode (Some ''2023-12-01'') (Str ''spotify:episode:dec01'')
          # [Episode (Some ([CHR 0xD9, CHR 0xA2, CHR 0xD9, CHR 0xA0, CHR 0xD9, CHR 0xA2, CHR 0xD9, CHR 0xA3]
                @ ''-11-20'')) (Str ''spotify:episode:nov20''),
             Episode (Some ''2023-11-01'') (Str ''spotify:episode:nov01'')]).
        \<not> is_fresh noon_jan_10 36 e"
    by code_simp
  have "find (is_fresh noon_jan_10 36) stale_episodes = None"
    using h3 by (simp add: stale_episodes_def)
  with stale_show_falls_back [OF h1 h2 h3] show ?thesis by (simp add: lookup_def)
qed

theorem boundary_is_inclusive_witness:
  "timedelta_micros midnight_jan_11 (the (parse_release ''2024-01-09'')) = 36 * 3600000000
   \<and> hours_since midnight_jan_11 (the (parse_release ''2024-01-09'')) = 36
   \<and> fst (the (get_latest_fresh_episode_uri boundary_show (Some ''token'') ''show1'' 36 start))
       = Inr (Some ''spotify:episode:jan09'')"
proof -
  define d where "d = the (parse_release ''2024-01-09'')"
  define s1 where "s1 = snd (the (api_get (episodes_service boundary_show)
      (''/shows/'' @ ''show1'' @ ''/episodes'') (Some ''token'')
      [(''market'', PStr MARKET), (''limit'', PInt 3)] start))"
  define s2 where "s2 = snd (the (utcnow boundary_show s1))"
  have v: "valid_datetime midnight_jan_11"
    by code_simp
  have e: "ep_release_date (Episode (Some ''2024-01-09'') (Str ''spotify:episode:jan09''))
      = Some ''2024-01-09''"
    by simp
  have "parse_release ''2024-01-09'' \<noteq> None"
    by code_simp
  then have p: "parse_release ''2024-01-09'' = Some d"
    by (auto simp: d_def)
  have t: "timedelta_micros midnight_jan_11 d = 36 * 3600000000"
    unfolding d_def by code_simp
  have b: "\<forall>x\<in>set [Episode None (Str ''spotify:episode:undated'')].
      \<not> is_fresh midnight_jan_11 36 x"
    by (simp add: is_fresh_def truthy_def)
  have h1: "api_get (episodes_service boundary_show) (''/shows/'' @ ''show1'' @ ''/episodes'')
      (Some ''token'') [(''market'', PStr MARKET), (''limit'', PInt 3)] start
      = Some (Inr ([Episode None (Str ''spotify:episode:undated'')]
          @ Episode (Some ''2024-01-09'') (Str ''spotify:episode:jan09'')
          # [Episode (Some ''2024-01-08'') (Str ''spotify:episode:jan08'')]), s1)"
    by (simp add: s1_def boundary_show_def boundary_episodes_def selector_defs)
  have h2: "utcnow boundary_show s1 = Some (Inr midnight_jan_11, s2)"
    by (simp add: s2_def s1_def boundary_show_def selector_defs)
  from boundary_is_inclusive [OF v e p t b h1 h2] t show ?thesis
    by (simp add: d_def lookup_def)
qed

theorem future_release_is_fresh_witness:
  "to_micros noon_jan_10 < to_micros (the (parse_release (''2024-01-1'' @ [CHR 0xD9, CHR 0xA2])))
   \<and> hours_since noon_jan_10 (the (parse_release (''2024-01-1'' @ [CHR 0xD9, CHR 0xA2]))) < 0
   \<and> fst (the (get_latest_fresh_episode_uri future_show (Some ''token'') ''show1'' 0 start))
       = Inr (Some ''spotify:episode:jan12'')"
proof -
  define d where "d = the (parse_release (''2024-01-1'' @ [CHR 0xD9, CHR 0xA2]))"
  define s1 where "s1 = snd (the (api_get (episodes_service future_show)
      (''/shows/'' @ ''show1'' @ ''/episodes'') (Some ''token'')
      [(''market'', PStr MARKET), (''limit'', PInt 3)] start))"
  define s2 where "s2 = snd (the (utcnow future_show s1))"
  have w: "(0::int) \<le> 0"
    by simp
  have e: "ep_release_date (Episode (Some (''2024-01-1'' @ [CHR 0xD9, CHR 0xA2])) (Str ''spotify:episode:jan12''))
      = Some (''2024-01-1'' @ [CHR 0xD9, CHR 0xA2])"
    by simp
  have "parse_release (''2024-01-1'' @ [CHR 0xD9, CHR 0xA2]) \<noteq> None"
    by code_simp
  then have p: "parse_release (''2024-01-1'' @ [CHR 0xD9, CHR 0xA2]) = Some d"
    by (auto simp: d_def)
  have t: "to_micros noon_jan_10 < to_micros d"
    unfolding d_def by code_simp
  have "parse_release ''soon'' = None"
    by code_simp
  then have b: "\<forall>x\<in>set [Episode (Some ''soon'') (Str ''spotify:episode:soon'')].
      \<not> is_fresh noon_jan_10 0 x"
    by (simp add: is_fresh_def truthy_def)
  have h1: "api_get (episodes_service future_show) (''/shows/'' @ ''show1'' @ ''/episodes'')
      (Some ''token'') [(''market'', PStr MARKET), (''limit'', PInt 3)] start
      = Some (Inr ([Episode (Some ''soon'') (Str ''spotify:episode:soon'')]
          @ Episode (Some (''2024-01-1'' @ [CHR 0xD9, CHR 0xA2])) (Str ''spotify:episode:jan12'') # []), s1)"
    by (simp add: s1_def future_show_def future_episodes_def selector_defs)
  have h2: "utcnow future_show s1 = Some (Inr noon_jan_10, s2)"
    by (simp add: s2_def s1_def future_show_def selector_defs)
  from future_release_is_fresh [OF w e p t b h1 h2] t show ?thesis
    by (simp add: d_def lookup_def)
qed

theorem scenario_36_hours_witness:
  "fst (the (get_latest_fresh_episode_uri scenario_show (Some ''token'') ''show1'' 36 start))
       = Inr (Some ''spotify:episode:a'')
   \<and> map (\<lambda>e. hours_since noon_jan_10 (the (parse_release (the (ep_release_date e)))))
        (scenario_episodes ''spotify:episode:a'' ''spotify:episode:b'' ''spotify:episode:c'')
       = [24, 48, 120]"
proof -
  define s1 where "s1 = snd (the (api_get (episodes_service scenario_show)
      (''/shows/'' @ ''show1'' @ ''/episodes'') (Some ''token'')
      [(''market'', PStr MARKET), (''limit'', PInt 3)] start))"
  define s2 where "s2 = snd (the (utcnow scenario_show s1))"
  have h1: "api_get (episodes_service scenario_show) (''/shows/'' @ ''show1'' @ ''/episodes'')
      (Some ''token'') [(''market'', PStr MARKET), (''limit'', PInt 3)] start
      = Some (Inr (scenario_episodes ''spotify:episode:a'' ''spotify:episode:b''
          ''spotify:episode:c''), s1)"
    by (simp add: s1_def scenario_show_def selector_defs)
  have h2: "utcnow scenario_show s1 = Some (Inr noon_jan_10, s2)"
    by (simp add: s2_def s1_def scenario_show_def selector_defs)
  from scenario_36_hours [OF h1 h2] show ?thesis by simp
qed


section \<open>The environment reader\<close>

text \<open>
  C10. A variable that is set to the empty string is read exactly as a variable that is
  not set: \<open>env\<close> raises the missing-variable error for it, with the same message.
\<close>

theorem env_empty_is_missing:
  "env (environ(name \<mapsto> [])) name = env (environ(name := None)) name
   \<and> env (environ(name \<mapsto> [])) name
       = Inl (RuntimeError (''Missing environment variable: '' @ name))"
  by (simp add: env_def)


section \<open>A show without episodes\<close>

lemma selector_empty:
  assumes "api_get (episodes_service rem) (''/shows/'' @ show_id @ ''/episodes'') token
             [(''market'', PStr MARKET), (''limit'', PInt 3)] s = Some (Inr [], s')"
  shows "get_latest_fresh_episode_uri rem token show_id fresh_hours s = Some (Inr None, s')"
  using assms by (simp add: get_latest_fresh_episode_uri_def bind_def ret_def)

text \<open>
  C6. When the episode listing of a show that was found comes back empty, the selector
  returns \<open>None\<close> without raising, and \<open>add_latest\<close> returns the list of URIs and the
  set of seen URIs as it received them: the show adds no entry.
\<close>

theorem no_episodes_no_entry:
  assumes "search_show_id rem token query s0 = Some (Inr (Some show_id), s1)"
    and "show_id \<noteq> []"
    and "api_get (episodes_service rem) (''/shows/'' @ show_id @ ''/episodes'') token
           [(''market'', PStr MARKET), (''limit'', PInt 3)] s1 = Some (Inr [], s2)"
  shows "get_latest_fresh_episode_uri rem token show_id fresh_hours s1 = Some (Inr None, s2)
     \<and> add_latest rem token query acc s0 = Some (Inr acc, s2)"
proof -
  have sel: "get_latest_fresh_episode_uri rem token show_id fh s1 = Some (Inr None, s2)" for fh
    by (rule selector_empty [OF assms(3)])
  have "add_latest rem token query acc s0 = Some (Inr acc, s2)"
    using assms(1,2) sel [of FRESH_HOURS]
    by (simp add: add_latest_def bind_def truthy_def ret_def)
  with sel show ?thesis by simp
qed

lemmas run_defs = search_show_id_def api_get_def send_def bind_def ret_def raise_def subscript_def
  lookup_def lift_def interpolate_def
  fixed_remote_def shows_for_def query_param_def start_def silent_show_def MARKET_def SPOTIFY_API_def

theorem no_episodes_no_entry_witness:
  "get_latest_fresh_episode_uri silent_show (Some ''token'') ''show1'' 36
     (snd (the (search_show_id silent_show (Some ''token'') ''Ao Ponto'' start)))
     = Some (Inr None,
         \<lparr>world = (),
          calls = [Request GET ''https://api.spotify.com/v1/search'' (Bearer ''token'')
                     (Query [(''q'', PStr ''Ao Ponto''), (''type'', PStr ''show''),
                             (''market'', PStr ''BR''), (''limit'', PInt 1)]),
                   Request GET ''https://api.spotify.com/v1/shows/show1/episodes''
                     (Bearer ''token'') (Query [(''market'', PStr ''BR''), (''limit'', PInt 3)])],
          stdout = []\<rparr>)
   \<and> fst (the (add_latest silent_show (Some ''token'') ''Ao Ponto'' ([''a''], {''a''}) start))
       = Inr ([''a''], {''a''})"
proof -
  define s1 where "s1 = snd (the (search_show_id silent_show (Some ''token'') ''Ao Ponto'' start))"
  define s2 where "s2 = snd (the (api_get (episodes_service silent_show)
      (''/shows/'' @ ''show1'' @ ''/episodes'') (Some ''token'')
      [(''market'', PStr MARKET), (''limit'', PInt 3)] s1))"
  have h1: "search_show_id silent_show (Some ''token'') ''Ao Ponto'' start = Some (Inr (Some ''show1''), s1)"
    by (simp add: s1_def run_defs)
  have h2: "''show1'' \<noteq> []" by simp
  have h3: "api_get (episodes_service silent_show) (''/shows/'' @ ''show1'' @ ''/episodes'')
      (Some ''token'') [(''market'', PStr MARKET), (''limit'', PInt 3)] s1 = Some (Inr [], s2)"
    by (simp add: s2_def s1_def run_defs)
  have s2: "s2 = \<lparr>world = (),
          calls = [Request GET ''https://api.spotify.com/v1/search'' (Bearer ''token'')
                     (Query [(''q'', PStr ''Ao Ponto''), (''type'', PStr ''show''),
                             (''market'', PStr ''BR''), (''limit'', PInt 1)]),
                   Request GET ''https://api.spotify.com/v1/shows/show1/episodes''
                     (Bearer ''token'') (Query [(''market'', PStr ''BR''), (''limit'', PInt 3)])],
          stdout = []\<rparr>"
    by (simp add: s2_def s1_def run_defs)
  from no_episodes_no_entry [OF h1 h2 h3, of 36 "([''a''], {''a''})"]
  show ?thesis
    by (simp add: s1_def [symmetric] s2)
qed


section \<open>The episode list builder\<close>

lemma bind_assoc: "bind (bind m f) g = bind m (\<lambda>x. bind (f x) g)"
  by (rule ext) (simp add: bind_def split: option.splits sum.splits prod.splits)

lemma bind_if: "bind (if c then m else n) f = (if c then bind m f else bind n f)"
  by simp

lemma bind_cong_fun: "(\<And>x. f x = g x) \<Longrightarrow> bind m f = bind m g"
  by (rule ext) (simp add: bind_def split: option.splits sum.splits prod.splits)

lemma returns_ret: "returns (ret x)"
  by (simp add: returns_def ret_def)

lemma returns_raise: "returns (raise e)"
  by (simp add: returns_def raise_def)

lemma returns_lift: "returns (lift r)"
  by (simp add: returns_def lift_def)

lemma returns_bind: "returns m \<Longrightarrow> (\<And>x. returns (f x)) \<Longrightarrow> returns (bind m f)"
  by (auto simp: returns_def bind_def split: option.splits sum.splits prod.splits)

lemma returns_if: "returns m \<Longrightarrow> returns n \<Longrightarrow> returns (if c then m else n)"
  by simp

lemma returns_send: "returns (send service req)"
  by (simp add: returns_def send_def split: prod.splits sum.splits)

lemma returns_subscript: "returns (subscript key v)"
  by (simp add: subscript_def returns_lift)

lemma returns_utcnow: "returns (utcnow rem)"
  by (simp add: returns_def utcnow_def split: prod.splits)

lemma returns_sleep: "returns (sleep rem)"
  by (simp add: returns_def sleep_def)

lemma returns_print: "returns (print line)"
  by (simp add: returns_def print_def)

lemma returns_search_show_id: "returns (search_show_id rem token query)"
  unfolding search_show_id_def api_get_def
  by (intro returns_bind returns_send)
     (auto intro!: returns_bind returns_ret returns_subscript split: list.splits)

lemma returns_selector: "returns (get_latest_fresh_episode_uri rem token show_id fresh_hours)"
  unfolding get_latest_fresh_episode_uri_def api_get_def
  by (intro returns_bind returns_send)
     (auto intro!: returns_bind returns_ret returns_subscript returns_utcnow
        split: list.splits option.splits)

lemma returns_show_outcome: "returns (show_outcome rem token query)"
  unfolding show_outcome_def
  by (intro returns_bind returns_search_show_id returns_if returns_ret returns_selector)

lemma returns_outcomes: "returns (outcomes rem token queries seen)"
proof (induction queries arbitrary: seen)
  case Nil
  show ?case by (simp add: returns_ret)
next
  case (Cons q qs)
  show ?case
    unfolding outcomes.simps
    by (intro returns_bind returns_show_outcome returns_if returns_sleep Cons.IH returns_ret)
qed

lemma add_latest_outcome:
  "add_latest rem token show_query acc =
     bind (show_outcome rem token show_query) (\<lambda>uri.
       if truthy uri \<and> the uri \<notin> snd acc
       then bind (sleep rem) (\<lambda>_. ret (fst acc @ [the uri], insert (the uri) (snd acc)))
       else ret acc)"
  unfolding add_latest_def show_outcome_def bind_assoc
  by (rule bind_cong_fun) (simp add: bind_ret truthy_def)

lemma remdups_skip: "u \<in> set bs \<Longrightarrow> remdups (as @ u # bs) = remdups (as @ bs)"
  by (induction as) auto

lemma keep_first_seen:
  "u \<in> set xs \<Longrightarrow> rev (remdups (rev (xs @ u # zs))) = rev (remdups (rev (xs @ zs)))"
  by (simp add: remdups_skip)

lemma keep_first_distinct: "distinct xs \<Longrightarrow> rev (remdups (rev xs)) = xs"
  by (simp add: distinct_remdups_id)

lemma yielded_uris_Cons:
  "yielded_uris (uri # ys) = (if truthy uri then the uri # yielded_uris ys else yielded_uris ys)"
  by (simp add: yielded_uris_def)

lemma add_all_outcomes:
  assumes "distinct xs"
  shows "add_all rem token queries (xs, set xs) =
     bind (outcomes rem token queries (set xs)) (\<lambda>ys.
       ret (rev (remdups (rev (xs @ yielded_uris ys))), set (xs @ yielded_uris ys)))"
  using assms
proof (induction queries arbitrary: xs)
  case Nil
  then show ?case
    by (simp add: bind_ret yielded_uris_def keep_first_distinct)
next
  case (Cons q qs)
  have step: "(if truthy uri \<and> the uri \<notin> set xs
         then bind (sleep rem) (\<lambda>_. add_all rem token qs (xs @ [the uri], insert (the uri) (set xs)))
         else add_all rem token qs (xs, set xs))
      = (if truthy uri \<and> the uri \<notin> set xs
         then bind (sleep rem) (\<lambda>_.
                bind (outcomes rem token qs (insert (the uri) (set xs))) (\<lambda>ys.
                  ret (rev (remdups (rev (xs @ yielded_uris (uri # ys)))),
                       set (xs @ yielded_uris (uri # ys)))))
         else bind (outcomes rem token qs (set xs)) (\<lambda>ys.
                ret (rev (remdups (rev (xs @ yielded_uris (uri # ys)))),
                     set (xs @ yielded_uris (uri # ys)))))" for uri
  proof (cases "truthy uri \<and> the uri \<notin> set xs")
    case True
    then have d: "distinct (xs @ [the uri])"
      using Cons.prems by simp
    show ?thesis
      using True Cons.IH [OF d] by (simp add: yielded_uris_Cons)
  next
    case False
    show ?thesis
    proof (cases "truthy uri")
      case True
      with False have "the uri \<in> set xs" by simp
      then show ?thesis
        using False True Cons.IH [OF Cons.prems]
        by (simp add: yielded_uris_Cons remdups_skip insert_absorb)
    next
      case f: False
      then show ?thesis
        using Cons.IH [OF Cons.prems] by (simp add: yielded_uris_Cons)
    qed
  qed
  have "add_all rem token (q # qs) (xs, set xs) =
      bind (show_outcome rem token q) (\<lambda>uri.
        if truthy uri \<and> the uri \<notin> set xs
        then bind (sleep rem) (\<lambda>_. add_all rem token qs (xs @ [the uri], insert (the uri) (set xs)))
        else add_all rem token qs (xs, set xs))"
    by (simp add: add_latest_outcome bind_assoc bind_if bind_ret cong del: if_weak_cong)
  also have "\<dots> =
      bind (show_outcome rem token q) (\<lambda>uri.
        if truthy uri \<and> the uri \<notin> set xs
        then bind (sleep rem) (\<lambda>_.
               bind (outcomes rem token qs (insert (the uri) (set xs))) (\<lambda>ys.
                 ret (rev (remdups (rev (xs @ yielded_uris (uri # ys)))),
                      set (xs @ yielded_uris (uri # ys)))))
        else bind (outcomes rem token qs (set xs)) (\<lambda>ys.
               ret (rev (remdups (rev (xs @ yielded_uris (uri # ys)))),
                    set (xs @ yielded_uris (uri # ys)))))"
    by (rule bind_cong_fun) (rule step)
  also have "\<dots> =
      bind (outcomes rem token (q # qs) (set xs)) (\<lambda>ys.
        ret (rev (remdups (rev (xs @ yielded_uris ys))), set (xs @ yielded_uris ys)))"
    by (simp add: bind_assoc bind_if bind_ret cong del: if_weak_cong)
  finally show ?case .
qed

lemma outcomes_length:
  "outcomes rem token queries seen s = Some (Inr ys, s') \<Longrightarrow> length ys = length queries"
proof (induction queries arbitrary: seen s ys)
  case Nil
  then show ?case by (simp add: ret_def)
next
  case (Cons q qs)
  from Cons.prems show ?case
    by (auto simp: ret_def sleep_def elim!: bind_cases dest!: Cons.IH split: if_splits)
qed

lemma build_by_outcomes:
  "build_episode_list rem token =
     bind (outcomes rem token (NEWS_SHOW_QUERIES @ SPORTS_SHOW_QUERIES) {}) (\<lambda>ys.
       ret (take 20 (rev (remdups (rev (yielded_uris ys))))))"
  using add_all_outcomes [of "[]" rem token "NEWS_SHOW_QUERIES @ SPORTS_SHOW_QUERIES"]
  by (simp add: build_episode_list_def bind_assoc bind_ret)

lemma keep_first_subseq: "subseq (rev (remdups (rev xs))) xs"
proof (induction xs rule: rev_induct)
  case Nil
  show ?case by simp
next
  case (snoc u xs)
  show ?case
  proof (cases "u \<in> set xs")
    case True
    with snoc show ?thesis by (simp add: subseq_rev_drop_many)
  next
    case False
    have "subseq (rev (remdups (rev xs)) @ [u]) (xs @ [u])"
      using snoc by (intro list_emb_append_mono) simp_all
    with False show ?thesis by simp
  qed
qed

lemma length_yielded_uris: "length (yielded_uris ys) \<le> length ys"
  by (simp add: yielded_uris_def)

text \<open>
  C1. The builder returns or raises from every state. When it returns a list, the list
  has no URI twice and at most 20 entries, and it is the list of URIs the configured
  queries yielded, news queries first and sports queries after, in that order, with every
  repetition of an earlier URI dropped. The history \<open>outcomes\<close> gives, for each
  query in turn, what its show yielded in that run.
\<close>
theorem episode_list_invariant:
  assumes "build_episode_list rem token s = Some (Inr uris, s')"
  shows "returns (build_episode_list rem token)
     \<and> distinct uris \<and> length uris \<le> 20
     \<and> (\<exists>ys. outcomes rem token (NEWS_SHOW_QUERIES @ SPORTS_SHOW_QUERIES) {} s = Some (Inr ys, s')
           \<and> length ys = length (NEWS_SHOW_QUERIES @ SPORTS_SHOW_QUERIES)
           \<and> uris = rev (remdups (rev (yielded_uris ys)))
           \<and> subseq uris (yielded_uris ys))"
proof -
  let ?qs = "NEWS_SHOW_QUERIES @ SPORTS_SHOW_QUERIES"
  have r: "returns (build_episode_list rem token)"
    unfolding build_by_outcomes by (intro returns_bind returns_outcomes returns_ret)
  from assms obtain ys where
    ys: "outcomes rem token ?qs {} s = Some (Inr ys, s')"
    and u: "uris = take 20 (rev (remdups (rev (yielded_uris ys))))"
    unfolding build_by_outcomes by (auto simp: ret_def elim!: bind_cases)
  have n: "length ys = length ?qs"
    using ys by (rule outcomes_length)
  have "length (remdups (rev (yielded_uris ys))) \<le> length (rev (yielded_uris ys))"
    by (rule length_remdups_leq)
  also have "\<dots> \<le> length ys"
    by (simp add: length_yielded_uris)
  also have "\<dots> = 6"
    by (simp add: n NEWS_SHOW_QUERIES_def SPORTS_SHOW_QUERIES_def)
  finally have "length (rev (remdups (rev (yielded_uris ys)))) \<le> 20"
    by simp
  then have u': "uris = rev (remdups (rev (yielded_uris ys)))"
    by (simp add: u)
  have sub: "subseq uris (yielded_uris ys)"
    unfolding u' by (rule keep_first_subseq)
  have "distinct uris" "length uris \<le> 20"
    by (simp_all add: u)
  with r ys n u' sub show ?thesis by blast
qed


lemma fresh_jan09: "is_fresh noon_jan_10 FRESH_HOURS (Episode (Some ''2024-01-09'') u)"
proof -
  have "within_window noon_jan_10 (the (parse_release ''2024-01-09'')) 36"
    by code_simp
  moreover have "parse_release ''2024-01-09'' \<noteq> None"
    by code_simp
  ultimately show ?thesis
    by (auto simp add: is_fresh_def truthy_def FRESH_HOURS_def split: option.splits)
qed


lemmas build_defs = build_episode_list_def add_latest_def show_outcome_def six_shows_def
  search_show_id_def get_latest_fresh_episode_uri_def first_fresh_find fresh_jan09 truthy_def
  sleep_def NEWS_SHOW_QUERIES_def SPORTS_SHOW_QUERIES_def run_defs selector_defs

theorem episode_list_invariant_witness:
  "fst (the (outcomes six_shows (Some ''token'') (NEWS_SHOW_QUERIES @ SPORTS_SHOW_QUERIES) {} start))
     = Inr [Some ''uri:/shows/the/episodes'', Some ''uri:/shows/Res/episodes'',
            None, None, Some ''uri:/shows/Res/episodes'', None]
   \<and> fst (the (build_episode_list six_shows (Some ''token'') start))
     = Inr [''uri:/shows/the/episodes'', ''uri:/shows/Res/episodes'']"
proof -
  define s' where "s' = snd (the (build_episode_list six_shows (Some ''token'') start))"
  have a: "fst (the (build_episode_list six_shows (Some ''token'') start))
     = Inr [''uri:/shows/the/episodes'', ''uri:/shows/Res/episodes'']"
    by (simp add: build_defs)
  have b: "build_episode_list six_shows (Some ''token'') start \<noteq> None"
    by (simp add: build_defs)
  have run: "build_episode_list six_shows (Some ''token'') start
     = Some (Inr [''uri:/shows/the/episodes'', ''uri:/shows/Res/episodes''], s')"
    using a b by (cases "build_episode_list six_shows (Some ''token'') start") (auto simp: s'_def)
  from episode_list_invariant [OF run] obtain ys where
    ys: "outcomes six_shows (Some ''token'') (NEWS_SHOW_QUERIES @ SPORTS_SHOW_QUERIES) {} start
          = Some (Inr ys, s')"
    and u: "[''uri:/shows/the/episodes'', ''uri:/shows/Res/episodes'']
          = rev (remdups (rev (yielded_uris ys)))"
    by blast
  have o: "fst (the (outcomes six_shows (Some ''token'') (NEWS_SHOW_QUERIES @ SPORTS_SHOW_QUERIES) {} start))
     = Inr [Some ''uri:/shows/the/episodes'', Some ''uri:/shows/Res/episodes'',
            None, None, Some ''uri:/shows/Res/episodes'', None]"
    by (simp add: build_defs)
  with a show ?thesis by simp
qed

end
